theory Spec2Isabelle
  imports Complex_Main "HOL-Library.Char_ord" "HOL-Library.List_Lexorder"
begin

section \<open>Values, exceptions and dictionaries\<close>

text \<open>
  The request bodies are JSON objects whose fields are strings or null. A Python value is
  falsy when it is \<open>None\<close> or the empty string.
\<close>

datatype jval = JNull | JStr string

fun truthy :: "jval \<Rightarrow> bool" where
  "truthy JNull = False"
| "truthy (JStr s) = (s \<noteq> [])"

fun str_of :: "jval \<Rightarrow> string" where
  "str_of JNull = ''None''"
| "str_of (JStr s) = s"

text \<open>
  Every \<open>raise\<close> of the source and every failure of a collaborator is a value:
  \<open>Failure\<close> stands for whatever exception a collaborator raised.
\<close>

datatype exn =
    KeyError string
  | ValueError string
  | FileNotFoundError string
  | Failure string

text \<open>
  A Python dict is an association list in insertion order; its keys are distinct.
  \<open>d[k]\<close> raises \<open>KeyError\<close> on a missing key, \<open>d.get(k)\<close> gives \<open>None\<close>.
\<close>

type_synonym dict = "(string \<times> jval) list"

definition getitem :: "dict \<Rightarrow> string \<Rightarrow> exn + jval" where
  "getitem d k = (case map_of d k of None \<Rightarrow> Inl (KeyError k) | Some v \<Rightarrow> Inr v)"



section \<open>The act reference model\<close>

text \<open>
  Modelled from the spec: the classes \<open>Norma\<close> and \<open>NormaVisitata\<close> of \<open>tools.norma\<close>
  are not among the sources. The spec describes them as immutable value types holding the
  fields they are constructed from, so they are records, compared by value; the field
  names are the keyword arguments of the constructor calls in the source, an argument
  that a call leaves out being \<open>None\<close>.
\<close>

record norma =
  tipo_atto :: jval
  data :: jval
  numero_atto :: jval
  url :: jval

record norma_visitata =
  norma :: norma
  numero_articolo :: jval
  versione :: jval
  data_versione :: jval
  urn :: jval

definition Norma :: "jval \<Rightarrow> jval \<Rightarrow> jval \<Rightarrow> jval \<Rightarrow> norma" where
  "Norma t d n u = \<lparr>tipo_atto = t, data = d, numero_atto = n, url = u\<rparr>"

definition NormaVisitata :: "norma \<Rightarrow> jval \<Rightarrow> jval \<Rightarrow> jval \<Rightarrow> jval \<Rightarrow> norma_visitata" where
  "NormaVisitata n a v dv u =
     \<lparr>norma = n, numero_articolo = a, versione = v, data_versione = dv, urn = u\<rparr>"

section \<open>The cache\<close>

text \<open>
  Modelled from the spec: \<open>TTLCache\<close> and the decorator \<open>cached\<close> come from the
  cachetools library, which is not among the sources. The spec's memoization layer is a
  bounded cache whose entries expire a fixed time after their insertion, are checked on
  access, and are evicted least recently used first; a lookup that finds no live entry
  computes the value and stores it, and a failed computation stores nothing.

  The entries are kept in order of use, the least recently used first, each with the
  time at which it expires. The clock is read by the caller and passed in.
\<close>

record ('k, 'v) ttl_cache =
  maxsize :: nat
  ttl :: real
  entries :: "('k \<times> 'v \<times> real) list"

definition TTLCache :: "nat \<Rightarrow> real \<Rightarrow> ('k, 'v) ttl_cache" where
  "TTLCache m t = \<lparr>maxsize = m, ttl = t, entries = []\<rparr>"

text \<open>
  \<open>cache[k]\<close>: the entry of \<open>k\<close>, if any, becomes the most recently used one; it is
  returned unless the clock has reached its expiry time (\<open>not (timer() < expires)\<close>).
\<close>

definition ttl_getitem :: "real \<Rightarrow> 'k \<Rightarrow> ('k, 'v) ttl_cache \<Rightarrow> 'v option \<times> ('k, 'v) ttl_cache" where
  "ttl_getitem now k c =
     (case find (\<lambda>e. fst e = k) (entries c) of
        None \<Rightarrow> (None, c)
      | Some e \<Rightarrow>
          (if now < snd (snd e) then Some (fst (snd e)) else None,
           c\<lparr>entries := filter (\<lambda>e'. fst e' \<noteq> k) (entries c) @ [e]\<rparr>))"

definition ttl_expire :: "real \<Rightarrow> ('k, 'v) ttl_cache \<Rightarrow> ('k, 'v) ttl_cache" where
  "ttl_expire now c = c\<lparr>entries := filter (\<lambda>e. now < snd (snd e)) (entries c)\<rparr>"

text \<open>
  \<open>cache[k] = v\<close>: the expired entries are removed; a value larger than the cache
  (every value has size 1) is refused, which the decorator ignores; if \<open>k\<close> is new, the
  least recently used entries are popped while the cache is full; then \<open>k\<close> is stored
  as the most recently used entry, expiring \<open>ttl\<close> after the clock reading.
\<close>

definition ttl_setitem :: "real \<Rightarrow> 'k \<Rightarrow> 'v \<Rightarrow> ('k, 'v) ttl_cache \<Rightarrow> ('k, 'v) ttl_cache" where
  "ttl_setitem now k v c =
     (let c1 = ttl_expire now c; es = entries c1 in
      if maxsize c < 1 then c1
      else
        let es' = (if k \<in> fst ` set es then es else drop (Suc (length es) - maxsize c) es)
        in c1\<lparr>entries := filter (\<lambda>e. fst e \<noteq> k) es' @ [(k, v, now + ttl c)]\<rparr>)"

text \<open>
  The wrapper that \<open>@cached(cache, key=...)\<close> puts around a function: look the key up
  (clock reading \<open>now\<close>); on a miss run the function, and store its value (clock reading
  \<open>now'\<close>) unless it raised.
\<close>

definition cached ::
  "('k, 'v) ttl_cache \<Rightarrow> real \<Rightarrow> real \<Rightarrow> 'k \<Rightarrow> ('s \<Rightarrow> (exn + 'v) \<times> 's) \<Rightarrow> 's
     \<Rightarrow> (exn + 'v) \<times> ('k, 'v) ttl_cache \<times> 's" where
  "cached c now now' k f s =
     (case ttl_getitem now k c of
        (Some v, c1) \<Rightarrow> (Inr v, c1, s)
      | (None, c1) \<Rightarrow>
          (case f s of
             (Inl e, s') \<Rightarrow> (Inl e, c1, s')
           | (Inr v, s') \<Rightarrow> (Inr v, ttl_setitem now' k v c1, s')))"

section \<open>The state of the process and its collaborators\<close>

text \<open>
  The module's globals (the three caches and \<open>history\<close>), the driver list of
  \<open>sys_op\<close>, the files on disk (the absolute paths that exist), and a trace. The trace
  is the model's observer: an event is appended where the source enters the body of a
  cached function or calls a collaborator, so that "the function ran" can be stated.
\<close>

type_synonym driver = nat

datatype call =
    Call_create_norma_instance
  | Call_extract_article_text norma jval
  | Call_extract_html_article norma_visitata
  | Call_get_brocardi_information jval
  | Call_get_info norma_visitata
  | Call_setup_driver
  | Call_close_driver
  | Call_extract_pdf driver jval
  | Call_rename string string

record app_state =
  norma_cache :: "(dict, norma_visitata) ttl_cache"
  article_cache :: "(norma \<times> jval, string) ttl_cache"
  brocardi_cache :: "(jval, jval \<times> jval \<times> jval) ttl_cache"
  history :: "norma_visitata list"
  drivers :: "driver list"
  files :: "string list"
  calls :: "call list"

definition init_state :: app_state where
  "init_state =
     \<lparr>norma_cache = TTLCache 100 600, article_cache = TTLCache 100 600,
      brocardi_cache = TTLCache 100 600, history = [], drivers = [], files = [],
      calls = []\<rparr>"

text \<open>
  What the code takes from outside during one request: the working directory, and the
  behaviour of every function of \<open>tools\<close> it calls. None of them is among the sources, so
  each is a parameter and may raise; the rendering collaborator reads and changes the
  files. A theorem that holds for every \<open>world\<close> holds whatever they do.
\<close>

record world =
  cwd :: string
  to_dict :: "norma_visitata \<Rightarrow> exn + string"
  tree :: "norma_visitata \<Rightarrow> exn + string"
  get_urn :: "norma_visitata \<Rightarrow> exn + string"
  extract_html_article :: "norma_visitata \<Rightarrow> exn + string"
  get_info :: "norma_visitata \<Rightarrow> exn + jval \<times> jval \<times> jval"
  urn_to_filename :: "jval \<Rightarrow> exn + jval"
  setup_driver_outcome :: "exn + driver"
  extract_pdf :: "driver \<Rightarrow> jval \<Rightarrow> string list \<Rightarrow> (exn + jval) \<times> string list"

datatype response =
    Json_norma string string string
  | Json_result string
  | Json_brocardi_info "(jval \<times> jval \<times> jval) option"
  | Json_pdf_url string
  | Json_error exn

section \<open>Reference resolution\<close>




section \<open>Article text\<close>

definition extract_article_text ::
  "world \<Rightarrow> norma \<Rightarrow> jval \<Rightarrow> app_state \<Rightarrow> (exn + string) \<times> app_state" where
  "extract_article_text w n article s =
     (let s1 = s\<lparr>calls := calls s @ [Call_extract_article_text n article]\<rparr>;
          normavisitata = NormaVisitata n article JNull JNull (url n)
      in if truthy article
         then (extract_html_article w normavisitata,
               s1\<lparr>calls := calls s1 @ [Call_extract_html_article normavisitata]\<rparr>)
         else (Inr [], s1))"

text \<open>
  The function as decorated: \<open>@cached(article_cache, key=lambda urn, article: (urn, article))\<close>.
  The key function receives the call's arguments, so its first component is the
  \<open>Norma\<close> object passed, not a string.
\<close>

definition extract_article_text_cached ::
  "world \<Rightarrow> real \<Rightarrow> real \<Rightarrow> norma \<Rightarrow> jval \<Rightarrow> app_state \<Rightarrow> (exn + string) \<times> app_state" where
  "extract_article_text_cached w now now' n article s =
     (case cached (article_cache s) now now' (n, article) (extract_article_text w n article) s of
        (r, c, s') \<Rightarrow> (r, s'\<lparr>article_cache := c\<rparr>))"

text \<open>The route \<open>/extract_article\<close>.\<close>

definition extract_article ::
  "world \<Rightarrow> real \<Rightarrow> real \<Rightarrow> exn + dict \<Rightarrow> app_state \<Rightarrow> response \<times> app_state" where
  "extract_article w now now' req s =
     (case req of Inl e \<Rightarrow> (Json_error e, s) | Inr d \<Rightarrow>
     (case getitem d ''urn'' of Inl e \<Rightarrow> (Json_error e, s) | Inr u \<Rightarrow>
     (case getitem d ''article'' of Inl e \<Rightarrow> (Json_error e, s) | Inr article \<Rightarrow>
        (let n = Norma (JStr ''costituzione'') JNull JNull u in
         case extract_article_text_cached w now now' n article s of
           (Inl e, s1) \<Rightarrow> (Json_error e, s1)
         | (Inr norma_art_text, s1) \<Rightarrow> (Json_result norma_art_text, s1)))))"

section \<open>Commentary\<close>

definition get_brocardi_information ::
  "world \<Rightarrow> jval \<Rightarrow> app_state \<Rightarrow> (exn + jval \<times> jval \<times> jval) \<times> app_state" where
  "get_brocardi_information w u s =
     (let s1 = s\<lparr>calls := calls s @ [Call_get_brocardi_information u]\<rparr>;
          n = Norma (JStr ''costituzione'') JNull JNull u;
          normavisitata = NormaVisitata n JNull JNull JNull u
      in (get_info w normavisitata, s1\<lparr>calls := calls s1 @ [Call_get_info normavisitata]\<rparr>))"

text \<open>The function as decorated: \<open>@cached(brocardi_cache, key=lambda urn: urn)\<close>.\<close>

definition get_brocardi_information_cached ::
  "world \<Rightarrow> real \<Rightarrow> real \<Rightarrow> jval \<Rightarrow> app_state \<Rightarrow> (exn + jval \<times> jval \<times> jval) \<times> app_state" where
  "get_brocardi_information_cached w now now' u s =
     (case cached (brocardi_cache s) now now' u (get_brocardi_information w u) s of
        (r, c, s') \<Rightarrow> (r, s'\<lparr>brocardi_cache := c\<rparr>))"

text \<open>The route \<open>/brocardi_info\<close>.\<close>

definition brocardi_info ::
  "world \<Rightarrow> real \<Rightarrow> real \<Rightarrow> exn + dict \<Rightarrow> app_state \<Rightarrow> response \<times> app_state" where
  "brocardi_info w now now' req s =
     (case req of Inl e \<Rightarrow> (Json_error e, s) | Inr d \<Rightarrow>
     (case getitem d ''urn'' of Inl e \<Rightarrow> (Json_error e, s) | Inr u \<Rightarrow>
     (case get_brocardi_information_cached w now now' u s of
        (Inl e, s1) \<Rightarrow> (Json_error e, s1)
      | (Inr (position, info, link), s1) \<Rightarrow>
          (Json_brocardi_info (if truthy position then Some (position, info, link) else None), s1))))"

section \<open>PDF export\<close>

text \<open>
  Paths are strings. \<open>os.path.join\<close> restarts at an absolute component. A relative path
  is resolved against the working directory. The model keeps the set of paths that exist
  and does not normalise them (no \<open>..\<close>, no links); directories are taken to exist.
\<close>

definition path_join :: "string \<Rightarrow> string \<Rightarrow> string" where
  "path_join a b =
     (if take 1 b = ''/'' then b
      else if a = [] \<or> last a = CHR ''/'' then a @ b
      else a @ ''/'' @ b)"

definition abspath :: "world \<Rightarrow> string \<Rightarrow> string" where
  "abspath w p = path_join (cwd w) p"

definition path_exists :: "world \<Rightarrow> string \<Rightarrow> app_state \<Rightarrow> bool" where
  "path_exists w p s = (abspath w p \<in> set (files s))"

text \<open>\<open>os.rename(src, dst)\<close>: fails when \<open>src\<close> does not exist, replaces \<open>dst\<close> otherwise.\<close>

definition os_rename :: "world \<Rightarrow> string \<Rightarrow> string \<Rightarrow> app_state \<Rightarrow> (exn + unit) \<times> app_state" where
  "os_rename w src dst s =
     (let s1 = s\<lparr>calls := calls s @ [Call_rename src dst]\<rparr> in
      if abspath w src \<in> set (files s)
      then (Inr (), s1\<lparr>files := List.insert (abspath w dst) (removeAll (abspath w src) (files s))\<rparr>)
      else (Inl (FileNotFoundError src), s1))"

text \<open>\<open>url_for('downloaded_file', filename=filename)\<close>, the route being \<open>/download/<filename>\<close>.\<close>

definition url_for_downloaded_file :: "string \<Rightarrow> string" where
  "url_for_downloaded_file filename = ''/download/'' @ filename"

text \<open>
  Modelled from the spec: the module \<open>sys_op\<close> is not among the sources. Creating a
  handle may fail; a handle created is put into the shared slot (the list
  \<open>sys_op.drivers\<close>). Release closes the handle if there is one and clears the slot; with
  no handle it does nothing, and it never fails.
\<close>

definition setup_driver :: "world \<Rightarrow> app_state \<Rightarrow> (exn + driver) \<times> app_state" where
  "setup_driver w s =
     (let s1 = s\<lparr>calls := calls s @ [Call_setup_driver]\<rparr> in
      case setup_driver_outcome w of
        Inl e \<Rightarrow> (Inl e, s1)
      | Inr dr \<Rightarrow> (Inr dr, s1\<lparr>drivers := drivers s1 @ [dr]\<rparr>))"

definition close_driver :: "app_state \<Rightarrow> app_state" where
  "close_driver s = s\<lparr>drivers := [], calls := calls s @ [Call_close_driver]\<rparr>"

text \<open>
  The block guarded by \<open>if not os.path.exists(pdf_path)\<close>: set up or reuse the driver,
  render, and rename. The source assigns the renderer's return value to \<open>pdf_path\<close>
  before the call of \<open>os.rename\<close>, so both arguments of the rename are built from the
  returned path.
\<close>

definition acquire_driver :: "world \<Rightarrow> app_state \<Rightarrow> (exn + driver) \<times> app_state" where
  "acquire_driver w s = (if drivers s = [] then setup_driver w s else (Inr (hd (drivers s)), s))"

definition generate_pdf :: "world \<Rightarrow> jval \<Rightarrow> app_state \<Rightarrow> (exn + unit) \<times> app_state" where
  "generate_pdf w u s =
     (case acquire_driver w s of
        (Inl e, s1) \<Rightarrow> (Inl e, s1)
      | (Inr dr, s1) \<Rightarrow>
          (case extract_pdf w dr u (files s1) of (r, fs) \<Rightarrow>
            (let s2 = s1\<lparr>files := fs, calls := calls s1 @ [Call_extract_pdf dr u]\<rparr> in
             case r of Inl e \<Rightarrow> (Inl e, s2) | Inr pdf_path \<Rightarrow>
               if \<not> truthy pdf_path then (Inl (ValueError ''Error generating PDF''), s2)
               else os_rename w (path_join (path_join (cwd w) ''download'') (str_of pdf_path))
                      (str_of pdf_path) s2)))"

text \<open>The body of the \<open>try\<close> block of the route \<open>/export_pdf\<close>.\<close>

definition export_pdf_try :: "world \<Rightarrow> exn + dict \<Rightarrow> app_state \<Rightarrow> (exn + response) \<times> app_state" where
  "export_pdf_try w req s =
     (case req of Inl e \<Rightarrow> (Inl e, s) | Inr d \<Rightarrow>
     (case getitem d ''urn'' of Inl e \<Rightarrow> (Inl e, s) | Inr u \<Rightarrow>
     (case urn_to_filename w u of Inl e \<Rightarrow> (Inl e, s) | Inr filename \<Rightarrow>
        if \<not> truthy filename then (Inl (ValueError ''Invalid URN''), s)
        else
          (let pdf_path = path_join (path_join (cwd w) ''download'') (str_of filename) in
           if \<not> path_exists w pdf_path s then
             (case generate_pdf w u s of
                (Inl e, s1) \<Rightarrow> (Inl e, s1)
              | (Inr _, s1) \<Rightarrow>
                  (Inr (Json_pdf_url (url_for_downloaded_file (str_of filename))), s1))
           else (Inr (Json_pdf_url (url_for_downloaded_file (str_of filename))), s)))))"

text \<open>
  The route: the \<open>except\<close> clause turns any exception into an error response, and the
  \<open>finally\<close> clause runs \<open>sys_op.close_driver()\<close> whichever way the block was left.
\<close>

definition export_pdf :: "world \<Rightarrow> exn + dict \<Rightarrow> app_state \<Rightarrow> response \<times> app_state" where
  "export_pdf w req s =
     (case export_pdf_try w req s of
        (Inl e, s1) \<Rightarrow> (Json_error e, close_driver s1)
      | (Inr resp, s1) \<Rightarrow> (resp, close_driver s1))"

section \<open>Notions used to state the properties\<close>

text \<open>A history of accesses to one cache, oldest first, and the cache it leaves.\<close>

datatype ('k, 'v) cache_op = Get real 'k | Set real 'k 'v

fun run_ops :: "('k, 'v) cache_op list \<Rightarrow> ('k, 'v) ttl_cache \<Rightarrow> ('k, 'v) ttl_cache" where
  "run_ops [] c = c"
| "run_ops (Get t k # ops) c = run_ops ops (snd (ttl_getitem t k c))"
| "run_ops (Set t k v # ops) c = run_ops ops (ttl_setitem t k v c)"

text \<open>The entry of a key is live at a clock reading: it exists and has not expired.\<close>

definition live_entry :: "('k, 'v) ttl_cache \<Rightarrow> 'k \<Rightarrow> real \<Rightarrow> bool" where
  "live_entry c k now =
     (case find (\<lambda>e. fst e = k) (entries c) of None \<Rightarrow> False | Some e \<Rightarrow> now < snd (snd e))"

text \<open>The events that a step from \<open>s\<close> to \<open>s'\<close> added to the trace.\<close>

definition new_calls :: "app_state \<Rightarrow> app_state \<Rightarrow> call list" where
  "new_calls s s' = drop (length (calls s)) (calls s')"

text \<open>The \<open>Norma\<close> objects that an event carries.\<close>

fun acts_of :: "call \<Rightarrow> norma list" where
  "acts_of (Call_extract_article_text n a) = [n]"
| "acts_of (Call_extract_html_article nv) = [norma nv]"
| "acts_of (Call_get_info nv) = [norma nv]"
| "acts_of _ = []"





section \<open>Sample inputs\<close>



definition incomplete_fields :: dict where
  "incomplete_fields = [(''act_type'', JStr ''legge''), (''date'', JStr ''1990-08-07'')]"


text \<open>The identifier of a statute, and requests that carry it.\<close>

definition statute_urn :: string where
  "statute_urn = ''urn:nir:legge:1990;241''"

definition article_request :: dict where
  "article_request = [(''urn'', JStr statute_urn), (''article'', JStr ''3'')]"

definition urn_request :: dict where
  "urn_request = [(''urn'', JStr statute_urn)]"

text \<open>The \<open>Norma\<close> object that the routes build from that identifier.\<close>

definition rebuilt_act :: norma where
  "rebuilt_act = Norma (JStr ''costituzione'') JNull JNull (JStr statute_urn)"

text \<open>
  Collaborators that succeed. The file name of an identifier is the identifier followed
  by \<open>.pdf\<close>. The renderer saves its file in the download directory under that very name
  and returns the name, relative to the download directory.
\<close>

definition sample_world :: world where
  "sample_world =
     \<lparr>cwd = ''/app'',
      to_dict = (\<lambda>nv. Inr ''data''),
      tree = (\<lambda>nv. Inr ''tree''),
      get_urn = (\<lambda>nv. Inr (str_of (tipo_atto (norma nv)))),
      extract_html_article = (\<lambda>nv. Inr ''text''),
      get_info = (\<lambda>nv. Inr (JStr ''1'', JStr ''info'', JStr ''link'')),
      urn_to_filename = (\<lambda>u. Inr (JStr (str_of u @ ''.pdf''))),
      setup_driver_outcome = Inr 1,
      extract_pdf =
        (\<lambda>dr u fs. (Inr (JStr (str_of u @ ''.pdf'')),
                    List.insert (''/app/download/'' @ str_of u @ ''.pdf'') fs))\<rparr>"

text \<open>The same collaborators, except that the renderer fails.\<close>

definition failing_world :: world where
  "failing_world = sample_world\<lparr>extract_pdf := (\<lambda>dr u fs. (Inl (Failure ''render''), fs))\<rparr>"

text \<open>The collaborators that succeed, while the network is down.\<close>

definition offline_world :: world where
  "offline_world =
     sample_world\<lparr>extract_html_article := (\<lambda>nv. Inl (Failure ''offline'')),
                  get_info := (\<lambda>nv. Inl (Failure ''offline''))\<rparr>"

text \<open>A state in which a driver is open, and the request for an article with its fields swapped.\<close>

definition open_state :: app_state where
  "open_state = init_state\<lparr>drivers := [7]\<rparr>"

definition article_request_swapped :: dict where
  "article_request_swapped = [(''article'', JStr ''3''), (''urn'', JStr statute_urn)]"

section \<open>Unfolding the sample inputs\<close>

lemmas article_eval_defs =
  extract_article_def extract_article_text_cached_def extract_article_text_def cached_def
  ttl_getitem_def ttl_setitem_def ttl_expire_def getitem_def Let_def Norma_def NormaVisitata_def
  sample_world_def offline_world_def init_state_def article_request_def
  article_request_swapped_def statute_urn_def TTLCache_def live_entry_def rebuilt_act_def

lemmas eval_defs =
  export_pdf_def export_pdf_try_def generate_pdf_def acquire_driver_def setup_driver_def
  close_driver_def os_rename_def path_exists_def abspath_def path_join_def
  url_for_downloaded_file_def new_calls_def getitem_def Let_def
  sample_world_def init_state_def open_state_def urn_request_def statute_urn_def TTLCache_def

section \<open>Field order\<close>



section \<open>Properties of the cache\<close>

lemma find_touched:
  "fst e = k \<Longrightarrow> find (\<lambda>x. fst x = k) (filter (\<lambda>x. fst x \<noteq> k) es @ [e]) = Some e"
  by (induction es) auto

lemma find_key_Some: "find (\<lambda>x. fst x = k) es = Some e \<Longrightarrow> fst e = k \<and> e \<in> set es"
  by (induction es) (auto split: if_splits)

lemma ttl_getitem_config:
  "maxsize (snd (ttl_getitem t k c)) = maxsize c" "ttl (snd (ttl_getitem t k c)) = ttl c"
  by (simp_all add: ttl_getitem_def split: option.splits)

lemma ttl_setitem_config:
  "maxsize (ttl_setitem t k v c) = maxsize c" "ttl (ttl_setitem t k v c) = ttl c"
  by (simp_all add: ttl_setitem_def ttl_expire_def Let_def)

lemma ttl_getitem_entries: "set (entries (snd (ttl_getitem t k c))) \<subseteq> set (entries c)"
  by (auto simp: ttl_getitem_def split: option.splits dest: find_key_Some)

lemma ttl_setitem_entries:
  "set (entries (ttl_setitem t k v c)) \<subseteq> insert (k, v, t + ttl c) (set (entries c))"
  by (auto simp: ttl_setitem_def ttl_expire_def Let_def dest: in_set_dropD)

lemma ttl_getitem_Some:
  "fst (ttl_getitem t k c) = Some v \<Longrightarrow> \<exists>e. (k, v, e) \<in> set (entries c) \<and> t < e"
  by (auto simp: ttl_getitem_def split: option.splits if_splits dest!: find_key_Some) 

text \<open>A lookup leaves the entry of its key in place, with its value and expiry time.\<close>

lemma ttl_getitem_find:
  "find (\<lambda>x. fst x = k) (entries (snd (ttl_getitem t k c))) = find (\<lambda>x. fst x = k) (entries c)"
  by (auto simp: ttl_getitem_def find_touched split: option.splits dest: find_key_Some)

lemma ttl_getitem_hit:
  "find (\<lambda>x. fst x = k) (entries c) = Some e \<Longrightarrow> t < snd (snd e) \<Longrightarrow>
   fst (ttl_getitem t k c) = Some (fst (snd e))"
  by (simp add: ttl_getitem_def)

lemma ttl_getitem_miss_later:
  "fst (ttl_getitem t k c) = None \<Longrightarrow> t \<le> t2 \<Longrightarrow> fst (ttl_getitem t2 k c) = None"
  by (auto simp: ttl_getitem_def split: option.splits if_splits)

lemma ttl_setitem_find:
  "0 < maxsize c \<Longrightarrow>
   find (\<lambda>x. fst x = k) (entries (ttl_setitem t k v c)) = Some (k, v, t + ttl c)"
  by (simp add: ttl_setitem_def ttl_expire_def Let_def find_touched)

lemma run_ops_ttl: "ttl (run_ops ops c) = ttl c"
  by (induction ops c rule: run_ops.induct) (simp_all add: ttl_getitem_config ttl_setitem_config)

lemma run_ops_entries:
  "x \<in> set (entries (run_ops ops c)) \<Longrightarrow>
   x \<in> set (entries c) \<or> (\<exists>T. Set T (fst x) (fst (snd x)) \<in> set ops \<and> snd (snd x) = T + ttl c)"
proof (induction ops arbitrary: c)
  case Nil
  then show ?case by simp
next
  case (Cons a ops)
  show ?case
  proof (cases a)
    case (Get t k)
    with Cons.prems have "x \<in> set (entries (run_ops ops (snd (ttl_getitem t k c))))" by simp
    from Cons.IH [OF this] ttl_getitem_entries [of t k c] Get show ?thesis
      by (auto simp: ttl_getitem_config)
  next
    case (Set t k v)
    with Cons.prems have "x \<in> set (entries (run_ops ops (ttl_setitem t k v c)))" by simp
    from Cons.IH [OF this] ttl_setitem_entries [of t k v c] Set show ?thesis
      by (auto simp: ttl_setitem_config)
  qed
qed

text \<open>
  Whatever a lookup returns was inserted less than \<open>ttl\<close> before the lookup: the expiry
  time of an entry is fixed when it is inserted, and no lookup changes it.
\<close>

lemma returned_entry_is_live:
  assumes "fst (ttl_getitem t k (run_ops ops (TTLCache m life))) = Some v"
  shows "\<exists>T. Set T k v \<in> set ops \<and> t < T + life"
proof -
  from ttl_getitem_Some [OF assms] obtain e where
    e: "(k, v, e) \<in> set (entries (run_ops ops (TTLCache m life)))" "t < e" by blast
  from run_ops_entries [OF e(1)] e(2) show ?thesis
    by (auto simp: TTLCache_def)
qed

lemma cached_miss:
  "fst (ttl_getitem t k c) = None \<Longrightarrow>
   cached c t t' k f s =
     (case f s of
        (Inl e, s') \<Rightarrow> (Inl e, snd (ttl_getitem t k c), s')
      | (Inr v, s') \<Rightarrow> (Inr v, ttl_setitem t' k v (snd (ttl_getitem t k c)), s'))"
  by (cases "ttl_getitem t k c") (auto simp: cached_def split: prod.splits sum.splits)

lemma cached_hit:
  "fst (ttl_getitem t k c) = Some v \<Longrightarrow> cached c t t' k f s = (Inr v, snd (ttl_getitem t k c), s)"
  by (cases "ttl_getitem t k c") (simp add: cached_def)

lemma ttl_getitem_fst:
  "fst (ttl_getitem t k c) =
     (case find (\<lambda>x. fst x = k) (entries c) of
        None \<Rightarrow> None
      | Some e \<Rightarrow> if t < snd (snd e) then Some (fst (snd e)) else None)"
  by (simp add: ttl_getitem_def split: option.splits)

lemma ttl_getitem_again:
  "fst (ttl_getitem t k (snd (ttl_getitem t0 k c))) = fst (ttl_getitem t k c)"
  by (simp add: ttl_getitem_fst ttl_getitem_find)

text \<open>
  C8. Take any history of lookups and insertions on a cache that starts empty, with
  capacity \<open>m\<close> and lifetime \<open>life\<close> (the application's caches have 100 and 600). If
  every insertion of the key \<open>k\<close> in the history happened at a time \<open>T\<close> with
  \<open>T + life \<le> t\<close>, then a lookup of \<open>k\<close> at time \<open>t\<close> returns nothing, however often
  and however recently the entry was read, and the decorated function runs its body
  again and stores the new value.
\<close>

theorem expired_entry_not_returned:
  assumes "\<forall>T v. Set T k v \<in> set ops \<longrightarrow> T + life \<le> t"
  shows "fst (ttl_getitem t k (run_ops ops (TTLCache m life))) = None \<and>
         cached (run_ops ops (TTLCache m life)) t t' k f s =
           (case f s of
              (Inl e, s') \<Rightarrow> (Inl e, snd (ttl_getitem t k (run_ops ops (TTLCache m life))), s')
            | (Inr v, s') \<Rightarrow>
                (Inr v, ttl_setitem t' k v (snd (ttl_getitem t k (run_ops ops (TTLCache m life)))), s'))"
proof -
  have "fst (ttl_getitem t k (run_ops ops (TTLCache m life))) = None"
  proof (cases "fst (ttl_getitem t k (run_ops ops (TTLCache m life)))")
    case None
    then show ?thesis .
  next
    case (Some v)
    from returned_entry_is_live [OF this] assms show ?thesis by fastforce
  qed
  then show ?thesis by (simp add: cached_miss)
qed

theorem expired_entry_not_returned_witness:
  "fst (ttl_getitem 600 (JStr ''u'')
          (run_ops [Set 0 (JStr ''u'') ''text'', Get 599 (JStr ''u'')] (TTLCache 100 600))) = None \<and>
   cached (run_ops [Set 0 (JStr ''u'') ''text'', Get 599 (JStr ''u'')] (TTLCache 100 600))
      600 601 (JStr ''u'') (\<lambda>n. (Inr ''new text'', Suc n)) (0::nat) =
     (Inr ''new text'',
      \<lparr>maxsize = 100, ttl = 600, entries = [(JStr ''u'', ''new text'', 1201)]\<rparr>, 1) \<and>
   fst (ttl_getitem 599 (JStr ''u'')
          (run_ops [Set 0 (JStr ''u'') ''text'', Get 599 (JStr ''u'')] (TTLCache 100 600))) = Some ''text''"
  using expired_entry_not_returned [of "JStr ''u''" "[Set 0 (JStr ''u'') ''text'', Get 599 (JStr ''u'')]"
      600 600 100 601 "\<lambda>n. (Inr ''new text'', Suc n)" "0::nat"]
  by (simp add: TTLCache_def ttl_getitem_def ttl_setitem_def ttl_expire_def)

text \<open>
  A failed call, seen by one caller: the sequential part of C9 (callers that wait on a
  computation in flight need concurrent requests, which a sequential model does not
  have). When the key has no live entry and the function fails, the call fails with the
  function's error, the cache gets no entry that it did not have, and a later call for
  the same key runs the function again: its outcome is that of the new run, stored if it
  succeeds.
\<close>

lemma cached_failure_not_stored:
  assumes "fst (ttl_getitem now k c) = None" "f s = (Inl e, s1)"
  shows "cached c now now' k f s = (Inl e, snd (ttl_getitem now k c), s1) \<and>
         set (entries (snd (ttl_getitem now k c))) \<subseteq> set (entries c) \<and>
         (now \<le> t \<longrightarrow>
            cached (snd (ttl_getitem now k c)) t t' k g s1 =
              (case g s1 of
                 (Inl e', s2) \<Rightarrow> (Inl e', snd (ttl_getitem t k (snd (ttl_getitem now k c))), s2)
               | (Inr v, s2) \<Rightarrow>
                   (Inr v, ttl_setitem t' k v (snd (ttl_getitem t k (snd (ttl_getitem now k c)))), s2)))"
proof -
  have again: "fst (ttl_getitem now k (snd (ttl_getitem now k c))) = None"
    using assms(1) by (simp add: ttl_getitem_again)
  have "cached (snd (ttl_getitem now k c)) t t' k g s1 =
          (case g s1 of
             (Inl e', s2) \<Rightarrow> (Inl e', snd (ttl_getitem t k (snd (ttl_getitem now k c))), s2)
           | (Inr v, s2) \<Rightarrow>
               (Inr v, ttl_setitem t' k v (snd (ttl_getitem t k (snd (ttl_getitem now k c)))), s2))"
    if "now \<le> t"
    by (rule cached_miss) (rule ttl_getitem_miss_later [OF again that])
  then show ?thesis
    using assms ttl_getitem_entries [of now k c] by (simp add: cached_miss)
qed

text \<open>Conversely, a call that fails has run the function, and the failure is the function's.\<close>

lemma cached_failure_leaves_no_entry:
  assumes "cached c now now' k f s = (Inl e, c1, s1)"
  shows "f s = (Inl e, s1) \<and> set (entries c1) \<subseteq> set (entries c) \<and>
         fst (ttl_getitem now k c1) = None \<and>
         (now \<le> t \<longrightarrow>
            cached c1 t t' k g s1 =
              (case g s1 of
                 (Inl e', s2) \<Rightarrow> (Inl e', snd (ttl_getitem t k c1), s2)
               | (Inr v, s2) \<Rightarrow> (Inr v, ttl_setitem t' k v (snd (ttl_getitem t k c1)), s2)))"
proof -
  from assms have miss: "fst (ttl_getitem now k c) = None"
    and c1: "c1 = snd (ttl_getitem now k c)" and f: "f s = (Inl e, s1)"
    by (auto simp: cached_def split: prod.splits option.splits sum.splits)
  have again: "fst (ttl_getitem now k c1) = None"
    using miss by (simp add: c1 ttl_getitem_again)
  have "cached c1 t t' k g s1 =
          (case g s1 of
             (Inl e', s2) \<Rightarrow> (Inl e', snd (ttl_getitem t k c1), s2)
           | (Inr v, s2) \<Rightarrow> (Inr v, ttl_setitem t' k v (snd (ttl_getitem t k c1)), s2))"
    if "now \<le> t"
    by (rule cached_miss) (rule ttl_getitem_miss_later [OF again that])
  with f again show ?thesis
    using ttl_getitem_entries [of now k c] by (simp add: c1)
qed

lemma cached_failure_sample:
  "extract_article_text offline_world rebuilt_act (JStr ''3'') init_state =
     (Inl (Failure ''offline''),
      snd (extract_article_text offline_world rebuilt_act (JStr ''3'') init_state)) \<and>
   entries (fst (snd (cached (article_cache init_state) 0 1 (rebuilt_act, JStr ''3'')
      (extract_article_text offline_world rebuilt_act (JStr ''3'')) init_state))) = [] \<and>
   fst (cached (article_cache init_state) 5 6 (rebuilt_act, JStr ''3'')
      (extract_article_text sample_world rebuilt_act (JStr ''3''))
      (snd (extract_article_text offline_world rebuilt_act (JStr ''3'') init_state))) =
     Inr ''text'' \<and>
   entries (fst (snd (cached (article_cache init_state) 5 6 (rebuilt_act, JStr ''3'')
      (extract_article_text sample_world rebuilt_act (JStr ''3''))
      (snd (extract_article_text offline_world rebuilt_act (JStr ''3'') init_state))))) =
     [((rebuilt_act, JStr ''3''), ''text'', 606)]"
proof -
  have 1: "cached (article_cache init_state) 0 1 (rebuilt_act, JStr ''3'')
      (extract_article_text offline_world rebuilt_act (JStr ''3'')) init_state =
     (Inl (Failure ''offline''), article_cache init_state,
      snd (extract_article_text offline_world rebuilt_act (JStr ''3'') init_state))"
    by (simp add: article_eval_defs)
  show ?thesis
    using cached_failure_leaves_no_entry [OF 1, of 5 6
        "extract_article_text sample_world rebuilt_act (JStr ''3'')"]
    unfolding 1
    by (simp add: article_eval_defs)
qed

section \<open>The article cache\<close>

lemma cached_result_entry:
  assumes "cached c now now' k f s = (Inr v, c1, s1)" "0 < maxsize c"
  shows "\<exists>e. find (\<lambda>x. fst x = k) (entries c1) = Some (k, v, e) \<and>
             (s1 = s \<and> now < e \<or> f s = (Inr v, s1) \<and> e = now' + ttl c)"
proof (cases "fst (ttl_getitem now k c)")
  case None
  with assms(1) have "f s = (Inr v, s1)" "c1 = ttl_setitem now' k v (snd (ttl_getitem now k c))"
    by (auto simp: cached_miss split: prod.splits sum.splits)
  with assms(2) show ?thesis
    by (simp add: ttl_setitem_find ttl_getitem_config)
next
  case (Some v')
  with assms(1) have eq: "v' = v" "c1 = snd (ttl_getitem now k c)" "s1 = s"
    by (simp_all add: cached_hit)
  from Some obtain x where x: "find (\<lambda>x. fst x = k) (entries c) = Some x"
    "now < snd (snd x)" "fst (snd x) = v'"
    by (auto simp: ttl_getitem_fst split: option.splits if_splits)
  from find_key_Some [OF x(1)] x(3) eq(1) have "x = (k, v, snd (snd x))"
    by (cases x) auto
  with x eq show ?thesis
    by (auto simp: ttl_getitem_find)
qed

lemma live_entry_hit:
  assumes "find (\<lambda>x. fst x = k) (entries c) = Some (k, v, e)" "live_entry c k t"
  shows "cached c t t' k f s = (Inr v, snd (ttl_getitem t k c), s)"
  using assms by (intro cached_hit) (simp add: live_entry_def ttl_getitem_fst)

lemma extract_article_entry_live:
  assumes "0 < maxsize (article_cache s)"
    and "getitem d1 ''urn'' = Inr u" "getitem d1 ''article'' = Inr a"
    and "extract_article w1 t1 t1' (Inr d1) s = (Json_result txt, s1)"
    and "calls s1 \<noteq> calls s" "t2 < t1' + ttl (article_cache s)"
  shows "live_entry (article_cache s1) (Norma (JStr ''costituzione'') JNull JNull u, a) t2"
proof -
  define k where "k = (Norma (JStr ''costituzione'') JNull JNull u, a)"
  obtain c1 s' where c: "cached (article_cache s) t1 t1' k
      (extract_article_text w1 (Norma (JStr ''costituzione'') JNull JNull u) a) s = (Inr txt, c1, s')"
    and s1: "s1 = s'\<lparr>article_cache := c1\<rparr>"
    using assms(2,3,4)
    by (auto simp: extract_article_def extract_article_text_cached_def k_def Let_def
        split: prod.splits sum.splits)
  from cached_result_entry [OF c assms(1)] assms(5) obtain e where
    "find (\<lambda>x. fst x = k) (entries c1) = Some (k, txt, e)" "e = t1' + ttl (article_cache s)"
    by (auto simp: s1)
  with assms(6) show ?thesis
    by (simp add: live_entry_def s1 k_def)
qed

text \<open>
  C4. The key of the article cache is the pair of the \<open>Norma\<close> object that the route
  builds from the identifier and the article designator; the object holds nothing but
  the identifier and a constant, so two requests with the same identifier and the same
  article have the same key. If the first request succeeded and the entry is still live
  when the second arrives, the second returns the same text and no function body or
  collaborator runs. After a request that computed the text at clock reading \<open>t1'\<close> the
  entry is live at every reading below \<open>t1' + ttl\<close> (lemma \<open>extract_article_entry_live\<close>).
\<close>

theorem extract_article_second_lookup:
  assumes "0 < maxsize (article_cache s)"
    and "getitem d1 ''urn'' = Inr u" "getitem d1 ''article'' = Inr a"
    and "getitem d2 ''urn'' = Inr u" "getitem d2 ''article'' = Inr a"
    and "extract_article w1 t1 t1' (Inr d1) s = (Json_result txt, s1)"
    and "live_entry (article_cache s1) (Norma (JStr ''costituzione'') JNull JNull u, a) t2"
  shows "fst (extract_article w2 t2 t2' (Inr d2) s1) = Json_result txt \<and>
         calls (snd (extract_article w2 t2 t2' (Inr d2) s1)) = calls s1"
proof -
  define k where "k = (Norma (JStr ''costituzione'') JNull JNull u, a)"
  obtain c1 s' where c: "cached (article_cache s) t1 t1' k
      (extract_article_text w1 (Norma (JStr ''costituzione'') JNull JNull u) a) s = (Inr txt, c1, s')"
    and s1: "s1 = s'\<lparr>article_cache := c1\<rparr>"
    using assms(2,3,6)
    by (auto simp: extract_article_def extract_article_text_cached_def k_def Let_def
        split: prod.splits sum.splits)
  from cached_result_entry [OF c assms(1)] obtain e where
    "find (\<lambda>x. fst x = k) (entries c1) = Some (k, txt, e)" by blast
  then have "find (\<lambda>x. fst x = k) (entries (article_cache s1)) = Some (k, txt, e)"
    by (simp add: s1)
  from live_entry_hit [OF this] assms(7) [folded k_def]
  have "cached (article_cache s1) t2 t2' k
      (extract_article_text w2 (Norma (JStr ''costituzione'') JNull JNull u) a) s1 =
      (Inr txt, snd (ttl_getitem t2 k (article_cache s1)), s1)" .
  then show ?thesis
    using assms(4,5)
    by (simp add: extract_article_def extract_article_text_cached_def k_def Let_def)
qed

theorem extract_article_second_lookup_witness:
  "fst (extract_article offline_world 600 602 (Inr article_request_swapped)
          (snd (extract_article sample_world 0 1 (Inr article_request) init_state))) =
     Json_result ''text'' \<and>
   calls (snd (extract_article offline_world 600 602 (Inr article_request_swapped)
                 (snd (extract_article sample_world 0 1 (Inr article_request) init_state)))) =
     calls (snd (extract_article sample_world 0 1 (Inr article_request) init_state)) \<and>
   fst (extract_article offline_world 601 602 (Inr article_request_swapped)
          (snd (extract_article sample_world 0 1 (Inr article_request) init_state))) =
     Json_error (Failure ''offline'')"
proof -
  have first: "extract_article sample_world 0 1 (Inr article_request) init_state =
      (Json_result ''text'', snd (extract_article sample_world 0 1 (Inr article_request) init_state))"
    by (simp add: article_eval_defs)
  have live: "live_entry
      (article_cache (snd (extract_article sample_world 0 1 (Inr article_request) init_state)))
      (Norma (JStr ''costituzione'') JNull JNull (JStr statute_urn), JStr ''3'') 600"
    by (simp add: article_eval_defs)
  have expired: "fst (extract_article offline_world 601 602 (Inr article_request_swapped)
          (snd (extract_article sample_world 0 1 (Inr article_request) init_state))) =
     Json_error (Failure ''offline'')"
    by (simp add: article_eval_defs)
  have "0 < maxsize (article_cache init_state)"
    "getitem article_request ''urn'' = Inr (JStr statute_urn)"
    "getitem article_request ''article'' = Inr (JStr ''3'')"
    "getitem article_request_swapped ''urn'' = Inr (JStr statute_urn)"
    "getitem article_request_swapped ''article'' = Inr (JStr ''3'')"
    by (simp_all add: article_eval_defs)
  from extract_article_second_lookup [OF this first live, of offline_world 602] expired
  show ?thesis by simp
qed

section \<open>The rendering handle\<close>

lemma acquire_driver_calls:
  "calls (snd (acquire_driver w s)) = calls s @ (if drivers s = [] then [Call_setup_driver] else [])"
  by (simp add: acquire_driver_def setup_driver_def Let_def split: sum.splits)

lemma acquire_driver_result:
  "fst (acquire_driver w s) = Inr dr \<Longrightarrow>
   (if drivers s = [] then setup_driver_outcome w = Inr dr else dr = hd (drivers s))"
  by (auto simp: acquire_driver_def setup_driver_def Let_def split: sum.splits if_splits)

lemma os_rename_calls: "calls (snd (os_rename w src dst s)) = calls s @ [Call_rename src dst]"
  by (simp add: os_rename_def Let_def)

text \<open>The events of the block: the driver's, then at most one rendering and one rename.\<close>

lemma generate_pdf_calls:
  "\<exists>xs. calls (snd (generate_pdf w u s)) = calls (snd (acquire_driver w s)) @ xs \<and>
        Call_close_driver \<notin> set xs \<and> Call_setup_driver \<notin> set xs \<and>
        (\<forall>dr u'. Call_extract_pdf dr u' \<in> set xs \<longrightarrow> fst (acquire_driver w s) = Inr dr)"
proof (cases "acquire_driver w s")
  case (Pair r s1)
  show ?thesis
  proof (cases r)
    case (Inl e)
    with Pair show ?thesis by (simp add: generate_pdf_def)
  next
    case (Inr dr)
    with Pair show ?thesis
      by (auto simp: generate_pdf_def os_rename_calls Let_def split: prod.splits sum.splits)
  qed
qed

lemma export_pdf_drivers: "drivers (snd (export_pdf w req s)) = []"
  by (simp add: export_pdf_def close_driver_def split: prod.splits sum.splits)

lemma export_pdf_try_generate:
  "snd (export_pdf_try w req s) = s \<or>
   (\<exists>u. snd (export_pdf_try w req s) = snd (generate_pdf w u s))"
proof (cases req)
  case (Inl e)
  then show ?thesis by (simp add: export_pdf_try_def)
next
  case (Inr d)
  show ?thesis
  proof (cases "getitem d ''urn''")
    case (Inl e)
    with Inr show ?thesis by (simp add: export_pdf_try_def)
  next
    case u: (Inr u)
    have "snd (export_pdf_try w req s) = s \<or>
          snd (export_pdf_try w req s) = snd (generate_pdf w u s)"
      using Inr u
      by (simp add: export_pdf_try_def Let_def split: sum.splits prod.splits)
    then show ?thesis by blast
  qed
qed

lemma export_pdf_try_calls:
  "\<exists>xs. calls (snd (export_pdf_try w req s)) = calls s @ xs \<and> Call_close_driver \<notin> set xs"
proof -
  consider "snd (export_pdf_try w req s) = s"
    | u where "snd (export_pdf_try w req s) = snd (generate_pdf w u s)"
    using export_pdf_try_generate [of w req s] by blast
  then show ?thesis
  proof cases
    case 1
    then show ?thesis by simp
  next
    case 2
    from generate_pdf_calls [of w u s] obtain xs where
      "calls (snd (generate_pdf w u s)) = calls (snd (acquire_driver w s)) @ xs"
      "Call_close_driver \<notin> set xs" by blast
    with 2 show ?thesis by (simp add: acquire_driver_calls)
  qed
qed

lemma export_pdf_calls:
  "\<exists>xs. calls (snd (export_pdf w req s)) = calls s @ xs @ [Call_close_driver] \<and>
        Call_close_driver \<notin> set xs"
proof -
  from export_pdf_try_calls [of w req s] obtain xs where
    xs: "calls (snd (export_pdf_try w req s)) = calls s @ xs" "Call_close_driver \<notin> set xs"
    by blast
  have "calls (snd (export_pdf w req s)) = calls (snd (export_pdf_try w req s)) @ [Call_close_driver]"
    by (simp add: export_pdf_def close_driver_def split: prod.splits sum.splits)
  with xs show ?thesis by simp
qed

text \<open>
  C5. Whatever the request and whatever the collaborators do (a missing field, an invalid
  identifier, a driver that cannot be created, a failed render, a failed rename, or
  success), an export ends with the shared slot empty, and it has called
  \<open>close_driver\<close> exactly once, as its last action.
\<close>

theorem export_pdf_always_releases:
  "drivers (snd (export_pdf w req s)) = [] \<and>
   count_list (new_calls s (snd (export_pdf w req s))) Call_close_driver = 1 \<and>
   last (calls (snd (export_pdf w req s))) = Call_close_driver"
proof -
  from export_pdf_calls [of w req s] obtain xs where
    xs: "calls (snd (export_pdf w req s)) = calls s @ xs @ [Call_close_driver]"
    "Call_close_driver \<notin> set xs"
    by blast
  then have "count_list (new_calls s (snd (export_pdf w req s))) Call_close_driver = 1"
    by (simp add: new_calls_def count_list_0_iff)
  with xs export_pdf_drivers [of w req s] show ?thesis by simp
qed

text \<open>A failed render: the driver that was set up for it is closed, and the error is returned.\<close>

lemma sample_failed_export:
  "export_pdf failing_world (Inr urn_request) init_state =
     (Json_error (Failure ''render''),
      init_state\<lparr>calls := [Call_setup_driver, Call_extract_pdf 1 (JStr ''urn:nir:legge:1990;241''),
                           Call_close_driver]\<rparr>)"
  by (simp add: eval_defs failing_world_def)

lemma export_pdf_try_render:
  assumes "Call_extract_pdf dr u \<in> set (new_calls s (snd (export_pdf_try w req s)))"
  shows "if drivers s = []
         then setup_driver_outcome w = Inr dr \<and>
              Call_setup_driver \<in> set (new_calls s (snd (export_pdf_try w req s)))
         else dr = hd (drivers s) \<and>
              Call_setup_driver \<notin> set (new_calls s (snd (export_pdf_try w req s)))"
proof -
  from export_pdf_try_generate [of w req s] assms obtain u' where
    u': "calls (snd (export_pdf_try w req s)) = calls (snd (generate_pdf w u' s))"
    by (auto simp: new_calls_def)
  from generate_pdf_calls [of w u' s] obtain xs where
    xs: "calls (snd (generate_pdf w u' s)) = calls (snd (acquire_driver w s)) @ xs"
      "Call_setup_driver \<notin> set xs"
      "\<forall>dr u'. Call_extract_pdf dr u' \<in> set xs \<longrightarrow> fst (acquire_driver w s) = Inr dr"
    by blast
  have new: "new_calls s (snd (export_pdf_try w req s)) =
      (if drivers s = [] then [Call_setup_driver] else []) @ xs"
    by (simp add: new_calls_def u' xs(1) acquire_driver_calls)
  with assms have "Call_extract_pdf dr u \<in> set xs"
    by (auto split: if_splits)
  with xs(3) have "fst (acquire_driver w s) = Inr dr" by blast
  from acquire_driver_result [OF this] new xs(2) show ?thesis
    by (auto split: if_splits)
qed

lemma new_calls_export_pdf:
  "new_calls s (snd (export_pdf w req s)) =
   new_calls s (snd (export_pdf_try w req s)) @ [Call_close_driver]"
proof -
  from export_pdf_try_calls [of w req s] obtain xs where
    xs: "calls (snd (export_pdf_try w req s)) = calls s @ xs" by blast
  have "calls (snd (export_pdf w req s)) = calls (snd (export_pdf_try w req s)) @ [Call_close_driver]"
    by (simp add: export_pdf_def close_driver_def split: prod.splits sum.splits)
  with xs show ?thesis by (simp add: new_calls_def)
qed

lemma export_pdf_render:
  assumes "Call_extract_pdf dr u \<in> set (new_calls s (snd (export_pdf w req s)))"
  shows "if drivers s = []
         then setup_driver_outcome w = Inr dr \<and>
              Call_setup_driver \<in> set (new_calls s (snd (export_pdf w req s)))
         else dr = hd (drivers s) \<and>
              Call_setup_driver \<notin> set (new_calls s (snd (export_pdf w req s)))"
  using export_pdf_try_render [of dr u s w req] assms
  by (simp add: new_calls_export_pdf split: if_splits)

lemma sample_export:
  "export_pdf sample_world (Inr urn_request) init_state =
     (Json_pdf_url ''/download/urn:nir:legge:1990;241.pdf'',
      init_state\<lparr>files := [''/app/urn:nir:legge:1990;241.pdf''],
         calls := [Call_setup_driver, Call_extract_pdf 1 (JStr ''urn:nir:legge:1990;241''),
                   Call_rename ''/app/download/urn:nir:legge:1990;241.pdf''
                     ''urn:nir:legge:1990;241.pdf'',
                   Call_close_driver]\<rparr>)"
  by (simp add: eval_defs)

text \<open>
  C6, as stated, fails: there are no two consecutive exports of which the second renders
  without creating a handle.
\<close>

theorem handle_reuse_counterexample:
  "\<not> (\<exists>w1 req1 s w2 req2 dr u.
         Call_extract_pdf dr u \<in>
           set (new_calls (snd (export_pdf w1 req1 s))
                  (snd (export_pdf w2 req2 (snd (export_pdf w1 req1 s))))) \<and>
         Call_setup_driver \<notin>
           set (new_calls (snd (export_pdf w1 req1 s))
                  (snd (export_pdf w2 req2 (snd (export_pdf w1 req1 s))))))"
proof
  assume "\<exists>w1 req1 s w2 req2 dr u.
         Call_extract_pdf dr u \<in>
           set (new_calls (snd (export_pdf w1 req1 s))
                  (snd (export_pdf w2 req2 (snd (export_pdf w1 req1 s))))) \<and>
         Call_setup_driver \<notin>
           set (new_calls (snd (export_pdf w1 req1 s))
                  (snd (export_pdf w2 req2 (snd (export_pdf w1 req1 s)))))"
  then obtain w1 req1 s w2 req2 dr u where
    r: "Call_extract_pdf dr u \<in>
           set (new_calls (snd (export_pdf w1 req1 s))
                  (snd (export_pdf w2 req2 (snd (export_pdf w1 req1 s)))))"
    and n: "Call_setup_driver \<notin>
           set (new_calls (snd (export_pdf w1 req1 s))
                  (snd (export_pdf w2 req2 (snd (export_pdf w1 req1 s)))))"
    by blast
  from export_pdf_render [OF r] export_pdf_drivers [of w1 req1 s] n
  show False by simp
qed

text \<open>
  C6, amended. Every export leaves the shared slot empty, so the second of two
  consecutive exports, if it renders, renders with a handle that it created itself. An
  export that starts with a handle in the slot renders with that handle, the first of the
  list, and creates none.
\<close>

theorem export_pdf_handle_not_carried_over:
  "drivers (snd (export_pdf w1 req1 s)) = [] \<and>
   (Call_extract_pdf dr u \<in>
      set (new_calls (snd (export_pdf w1 req1 s))
             (snd (export_pdf w2 req2 (snd (export_pdf w1 req1 s))))) \<longrightarrow>
    setup_driver_outcome w2 = Inr dr \<and>
    Call_setup_driver \<in>
      set (new_calls (snd (export_pdf w1 req1 s))
             (snd (export_pdf w2 req2 (snd (export_pdf w1 req1 s)))))) \<and>
   (drivers s \<noteq> [] \<and> Call_extract_pdf dr u \<in> set (new_calls s (snd (export_pdf w1 req1 s))) \<longrightarrow>
    dr = hd (drivers s) \<and> Call_setup_driver \<notin> set (new_calls s (snd (export_pdf w1 req1 s))))"
  using export_pdf_render [of dr u "snd (export_pdf w1 req1 s)" w2 req2]
    export_pdf_render [of dr u s w1 req1] export_pdf_drivers [of w1 req1 s]
  by (simp split: if_splits)

theorem export_pdf_handle_not_carried_over_witness:
  "drivers (snd (export_pdf sample_world (Inr urn_request) open_state)) = [] \<and>
   Call_extract_pdf 7 (JStr statute_urn) \<in>
     set (new_calls open_state (snd (export_pdf sample_world (Inr urn_request) open_state))) \<and>
   hd (drivers open_state) = 7 \<and>
   Call_setup_driver \<notin>
     set (new_calls open_state (snd (export_pdf sample_world (Inr urn_request) open_state))) \<and>
   Call_extract_pdf 1 (JStr statute_urn) \<in>
     set (new_calls (snd (export_pdf sample_world (Inr urn_request) open_state))
            (snd (export_pdf sample_world (Inr urn_request)
                   (snd (export_pdf sample_world (Inr urn_request) open_state))))) \<and>
   Call_setup_driver \<in>
     set (new_calls (snd (export_pdf sample_world (Inr urn_request) open_state))
            (snd (export_pdf sample_world (Inr urn_request)
                   (snd (export_pdf sample_world (Inr urn_request) open_state)))))"
proof -
  have 1: "export_pdf sample_world (Inr urn_request) open_state =
     (Json_pdf_url ''/download/urn:nir:legge:1990;241.pdf'',
      init_state\<lparr>files := [''/app/urn:nir:legge:1990;241.pdf''],
         calls := [Call_extract_pdf 7 (JStr ''urn:nir:legge:1990;241''),
                   Call_rename ''/app/download/urn:nir:legge:1990;241.pdf''
                     ''urn:nir:legge:1990;241.pdf'',
                   Call_close_driver]\<rparr>)"
    by (simp add: eval_defs)
  have 2: "Call_extract_pdf 1 (JStr statute_urn) \<in>
     set (new_calls (snd (export_pdf sample_world (Inr urn_request) open_state))
            (snd (export_pdf sample_world (Inr urn_request)
                   (snd (export_pdf sample_world (Inr urn_request) open_state)))))"
    unfolding 1 by (simp add: eval_defs)
  have 3: "Call_extract_pdf 7 (JStr statute_urn) \<in>
     set (new_calls open_state (snd (export_pdf sample_world (Inr urn_request) open_state)))"
    unfolding 1 by (simp add: eval_defs)
  have 4: "drivers open_state \<noteq> [] \<and> hd (drivers open_state) = 7"
    by (simp add: open_state_def)
  show ?thesis
    using export_pdf_handle_not_carried_over
      [of sample_world "Inr urn_request" open_state 1 "JStr statute_urn" sample_world "Inr urn_request"]
      export_pdf_handle_not_carried_over
      [of sample_world "Inr urn_request" open_state 7 "JStr statute_urn" sample_world "Inr urn_request"]
      2 3 4
    by simp
qed

section \<open>Repeated export\<close>

text \<open>
  When the file of the identifier exists in the download directory, an export does not
  render and answers with the file's address.
\<close>

lemma export_pdf_existing_file:
  assumes "getitem d ''urn'' = Inr u" "urn_to_filename w u = Inr filename" "truthy filename"
    and "path_exists w (path_join (path_join (cwd w) ''download'') (str_of filename)) s"
  shows "export_pdf w (Inr d) s =
           (Json_pdf_url (url_for_downloaded_file (str_of filename)), close_driver s)"
  using assms by (simp add: export_pdf_def export_pdf_try_def Let_def)

text \<open>
  C7. The first export of the sample identifier renders; the renderer leaves the file in
  the download directory under the derived name and returns that name. The rename then
  moves the file to the working directory, so the derived path does not exist when the
  same export is requested again, and the second export renders once more.
\<close>

theorem export_pdf_renders_again:
  "fst (export_pdf sample_world (Inr urn_request) init_state) =
     Json_pdf_url ''/download/urn:nir:legge:1990;241.pdf'' \<and>
   files (snd (export_pdf sample_world (Inr urn_request) init_state)) =
     [''/app/urn:nir:legge:1990;241.pdf''] \<and>
   fst (export_pdf sample_world (Inr urn_request)
          (snd (export_pdf sample_world (Inr urn_request) init_state))) =
     Json_pdf_url ''/download/urn:nir:legge:1990;241.pdf'' \<and>
   new_calls (snd (export_pdf sample_world (Inr urn_request) init_state))
     (snd (export_pdf sample_world (Inr urn_request)
            (snd (export_pdf sample_world (Inr urn_request) init_state)))) =
     [Call_setup_driver, Call_extract_pdf 1 (JStr ''urn:nir:legge:1990;241''),
      Call_rename ''/app/download/urn:nir:legge:1990;241.pdf'' ''urn:nir:legge:1990;241.pdf'',
      Call_close_driver]"
  unfolding sample_export by (simp add: eval_defs)

section \<open>The act type of a reconstructed act\<close>

lemma cached_calls:
  "snd (snd (cached c t t' k f s)) = s \<or> snd (snd (cached c t t' k f s)) = snd (f s)"
  by (auto simp: cached_def split: prod.splits option.splits sum.splits)

lemma extract_article_text_calls:
  "calls (snd (extract_article_text w n a s)) = calls s @ [Call_extract_article_text n a] \<or>
   calls (snd (extract_article_text w n a s)) =
     calls s @ [Call_extract_article_text n a,
                Call_extract_html_article (NormaVisitata n a JNull JNull (url n))]"
  by (simp add: extract_article_text_def Let_def)

lemma get_brocardi_information_calls:
  "calls (snd (get_brocardi_information w u s)) =
     calls s @ [Call_get_brocardi_information u,
                Call_get_info (NormaVisitata (Norma (JStr ''costituzione'') JNull JNull u)
                                 JNull JNull JNull u)]"
  by (simp add: get_brocardi_information_def Let_def)

lemma extract_article_calls:
  "\<exists>u a. new_calls s (snd (extract_article w now now' req s)) \<in>
     {[], [Call_extract_article_text (Norma (JStr ''costituzione'') JNull JNull u) a],
      [Call_extract_article_text (Norma (JStr ''costituzione'') JNull JNull u) a,
       Call_extract_html_article
         (NormaVisitata (Norma (JStr ''costituzione'') JNull JNull u) a JNull JNull u)]}"
proof (cases req)
  case (Inl e)
  then show ?thesis by (simp add: extract_article_def new_calls_def)
next
  case (Inr d)
  show ?thesis
  proof (cases "getitem d ''urn''")
    case (Inl e)
    with Inr show ?thesis by (simp add: extract_article_def new_calls_def)
  next
    case u: (Inr u)
    show ?thesis
    proof (cases "getitem d ''article''")
      case (Inl e)
      with Inr u show ?thesis by (simp add: extract_article_def new_calls_def)
    next
      case a: (Inr a)
      define n where "n = Norma (JStr ''costituzione'') JNull JNull u"
      have url: "url n = u" by (simp add: n_def Norma_def)
      have "calls (snd (extract_article w now now' req s)) =
            calls (snd (snd (cached (article_cache s) now now' (n, a) (extract_article_text w n a) s)))"
        using Inr u a
        by (simp add: extract_article_def extract_article_text_cached_def n_def Let_def
            split: prod.splits sum.splits)
      with cached_calls [of "article_cache s" now now' "(n, a)" "extract_article_text w n a" s]
        extract_article_text_calls [of w n a s]
      have "new_calls s (snd (extract_article w now now' req s)) \<in>
         {[], [Call_extract_article_text n a],
          [Call_extract_article_text n a, Call_extract_html_article (NormaVisitata n a JNull JNull u)]}"
        by (auto simp: new_calls_def url)
      then show ?thesis unfolding n_def by blast
    qed
  qed
qed

lemma brocardi_info_calls:
  "\<exists>u. new_calls s (snd (brocardi_info w now now' req s)) \<in>
     {[], [Call_get_brocardi_information u,
           Call_get_info (NormaVisitata (Norma (JStr ''costituzione'') JNull JNull u)
                            JNull JNull JNull u)]}"
proof (cases req)
  case (Inl e)
  then show ?thesis by (simp add: brocardi_info_def new_calls_def)
next
  case (Inr d)
  show ?thesis
  proof (cases "getitem d ''urn''")
    case (Inl e)
    with Inr show ?thesis by (simp add: brocardi_info_def new_calls_def)
  next
    case u: (Inr u)
    have "calls (snd (brocardi_info w now now' req s)) =
          calls (snd (snd (cached (brocardi_cache s) now now' u (get_brocardi_information w u) s)))"
      using Inr u
      by (simp add: brocardi_info_def get_brocardi_information_cached_def
          split: prod.splits sum.splits)
    with cached_calls [of "brocardi_cache s" now now' u "get_brocardi_information w u" s]
    have "new_calls s (snd (brocardi_info w now now' req s)) \<in>
     {[], [Call_get_brocardi_information u,
           Call_get_info (NormaVisitata (Norma (JStr ''costituzione'') JNull JNull u)
                            JNull JNull JNull u)]}"
      by (auto simp: new_calls_def get_brocardi_information_calls)
    then show ?thesis by blast
  qed
qed

text \<open>
  C10. Every \<open>Norma\<close> object that a request for an article or for commentary hands to a
  function body or to a collaborator has the act type \<open>costituzione\<close> and neither date
  nor number, whatever the request and its identifier are.
\<close>

theorem reconstructed_act_type_fixed:
  "(\<forall>c \<in> set (new_calls s (snd (extract_article w now now' req s))).
      \<forall>n \<in> set (acts_of c).
        tipo_atto n = JStr ''costituzione'' \<and> data n = JNull \<and> numero_atto n = JNull) \<and>
   (\<forall>c \<in> set (new_calls s (snd (brocardi_info w now now' req s))).
      \<forall>n \<in> set (acts_of c).
        tipo_atto n = JStr ''costituzione'' \<and> data n = JNull \<and> numero_atto n = JNull)"
proof
  from extract_article_calls [of s w now now' req]
  show "\<forall>c \<in> set (new_calls s (snd (extract_article w now now' req s))).
      \<forall>n \<in> set (acts_of c).
        tipo_atto n = JStr ''costituzione'' \<and> data n = JNull \<and> numero_atto n = JNull"
    by (auto simp: Norma_def NormaVisitata_def)
  from brocardi_info_calls [of s w now now' req]
  show "\<forall>c \<in> set (new_calls s (snd (brocardi_info w now now' req s))).
      \<forall>n \<in> set (acts_of c).
        tipo_atto n = JStr ''costituzione'' \<and> data n = JNull \<and> numero_atto n = JNull"
    by (auto simp: Norma_def NormaVisitata_def)
qed

lemma sample_extract_article: "extract_article sample_world 0 1 (Inr article_request) init_state =
  (Json_result ''text'',
   init_state\<lparr>article_cache := \<lparr>maxsize = 100, ttl = 600,
        entries = [((Norma (JStr ''costituzione'') JNull JNull (JStr statute_urn), JStr ''3''), ''text'', 601)]\<rparr>,
     calls := [Call_extract_article_text (Norma (JStr ''costituzione'') JNull JNull (JStr statute_urn)) (JStr ''3''),
               Call_extract_html_article (NormaVisitata (Norma (JStr ''costituzione'') JNull JNull (JStr statute_urn)) (JStr ''3'') JNull JNull (JStr statute_urn))]\<rparr>)"
  by (simp add: article_eval_defs)

lemma sample_brocardi_info: "new_calls init_state (snd (brocardi_info sample_world 0 1 (Inr urn_request) init_state)) =
   [Call_get_brocardi_information (JStr statute_urn),
    Call_get_info (NormaVisitata (Norma (JStr ''costituzione'') JNull JNull (JStr statute_urn))
                                 JNull JNull JNull (JStr statute_urn))]"
  by (simp add: article_eval_defs new_calls_def brocardi_info_def
      get_brocardi_information_cached_def get_brocardi_information_def urn_request_def)

theorem reconstructed_act_type_fixed_witness:
  "concat (map acts_of
     (new_calls init_state (snd (extract_article sample_world 0 1 (Inr article_request) init_state)))) =
     [Norma (JStr ''costituzione'') JNull JNull (JStr statute_urn),
      Norma (JStr ''costituzione'') JNull JNull (JStr statute_urn)] \<and>
   concat (map acts_of
     (new_calls init_state (snd (brocardi_info sample_world 0 1 (Inr urn_request) init_state)))) =
     [Norma (JStr ''costituzione'') JNull JNull (JStr statute_urn)] \<and>
   tipo_atto (Norma (JStr ''costituzione'') JNull JNull (JStr statute_urn)) = JStr ''costituzione''"
proof -
  have 1: "concat (map acts_of
     (new_calls init_state (snd (extract_article sample_world 0 1 (Inr article_request) init_state)))) =
     [Norma (JStr ''costituzione'') JNull JNull (JStr statute_urn),
      Norma (JStr ''costituzione'') JNull JNull (JStr statute_urn)]"
    unfolding sample_extract_article by (simp add: new_calls_def init_state_def NormaVisitata_def)
  have 2: "concat (map acts_of
     (new_calls init_state (snd (brocardi_info sample_world 0 1 (Inr urn_request) init_state)))) =
     [Norma (JStr ''costituzione'') JNull JNull (JStr statute_urn)]"
    unfolding sample_brocardi_info by (simp add: NormaVisitata_def)
  from reconstructed_act_type_fixed [of init_state sample_world 0 1 "Inr article_request"]
  have "\<forall>n \<in> set (concat (map acts_of
     (new_calls init_state (snd (extract_article sample_world 0 1 (Inr article_request) init_state))))).
       tipo_atto n = JStr ''costituzione''"
    by auto
  with 1 2 show ?thesis by simp
qed

section \<open>Determinism of resolution\<close>

























end
